theory Spec2Isabelle
  imports Main
begin

section \<open>Errors\<close>

text \<open>
  Go's \<open>error\<close> values of the two packages, one constructor for each \<open>errors.New\<close> and
  \<open>fmt.Errorf\<close> site of the source. A constructor's arguments are the values that the
  format string of that site prints (\<open>%d\<close>, \<open>%s\<close>, \<open>%w\<close>); a site whose message is a
  fixed text has a constructor with no argument.

  \<^item> \<open>OSError\<close>: an error of the operating system (\<open>os.Open\<close>, a failed read);
  \<^item> \<open>ErrTooLong\<close>: \<open>bufio.ErrTooLong\<close>, a line that does not fit the scanner's buffer;
  \<^item> \<open>ExecutableNotFound\<close>: "browser executable not found";
  \<^item> \<open>BrowserNotFound e\<close>: "browser not found: %w";
  \<^item> \<open>BrowserStartFailed\<close>: "failed to start browser: %w" (the wrapped error is the
    automation library's and is not modelled);
  \<^item> \<open>FirefoxNotImplemented\<close>: "firefox support is currently experimental and not fully
    implemented";
  \<^item> \<open>UnsupportedBrowserType\<close>: "unsupported browser type";
  \<^item> \<open>PoolInitFailed\<close>: "failed to initialize any browser workers";
  \<^item> \<open>PoolClosed\<close>: "browser pool is closed";
  \<^item> \<open>AcquireTimeout\<close>: "timeout waiting for browser context";
  \<^item> \<open>NoRequestFilePath\<close>: "no request file path provided";
  \<^item> \<open>OpenRequestFileFailed e\<close>: "failed to open request file: %w";
  \<^item> \<open>LineInvalidFormat n\<close>: "line %d: invalid request format, expected at least METHOD
    and URL";
  \<^item> \<open>LineInvalidMethod n m\<close>: "line %d: invalid HTTP method '%s'";
  \<^item> \<open>LineCreateRequestFailed n\<close>: "line %d: failed to create request: %w";
  \<^item> \<open>LineInvalidHeader n h\<close>: "line %d: invalid header format '%s'";
  \<^item> \<open>ReadRequestFileFailed e\<close>: "error reading request file: %w";
  \<^item> \<open>NoValidRequests\<close>: "no valid requests found in file".
\<close>

datatype error =
    OSError string
  | ErrTooLong
  | ExecutableNotFound
  | BrowserNotFound error
  | BrowserStartFailed
  | FirefoxNotImplemented
  | UnsupportedBrowserType
  | PoolInitFailed
  | PoolClosed
  | AcquireTimeout
  | NoRequestFilePath
  | OpenRequestFileFailed error
  | LineInvalidFormat nat
  | LineInvalidMethod nat string
  | LineCreateRequestFailed nat
  | LineInvalidHeader nat string
  | ReadRequestFileFailed error
  | NoValidRequests

section \<open>Package browser: the browser descriptor\<close>

text \<open>
  \<open>type BrowserType string\<close> with its three constants. A \<open>Browser\<close> may hold any string
  as its type, as in Go.
\<close>

type_synonym BrowserType = string

definition Chrome :: BrowserType where
  "Chrome = ''chrome''"

definition Chromium :: BrowserType where
  "Chromium = ''chromium''"

definition Firefox :: BrowserType where
  "Firefox = ''firefox''"

record Browser =
  Type :: BrowserType
  Path :: string
  browsers :: "string list"

text \<open>The backslash of the Windows paths, which a string literal cannot hold.\<close>

definition bsl :: string where
  "bsl = [CHR 0x5C]"

definition chrome_paths :: "string list" where
  "chrome_paths =
    [''/usr/bin/google-chrome'',
     ''/usr/bin/google-chrome-stable'',
     ''/usr/local/bin/google-chrome'',
     ''/Applications/Google Chrome.app/Contents/MacOS/Google Chrome'',
     ''C:'' @ bsl @ ''Program Files'' @ bsl @ ''Google'' @ bsl @ ''Chrome'' @ bsl
       @ ''Application'' @ bsl @ ''chrome.exe'',
     ''C:'' @ bsl @ ''Program Files (x86)'' @ bsl @ ''Google'' @ bsl @ ''Chrome'' @ bsl
       @ ''Application'' @ bsl @ ''chrome.exe'']"

definition chromium_paths :: "string list" where
  "chromium_paths =
    [''/usr/bin/chromium'',
     ''/usr/bin/chromium-browser'',
     ''/usr/local/bin/chromium'',
     ''/Applications/Chromium.app/Contents/MacOS/Chromium'',
     ''C:'' @ bsl @ ''Program Files'' @ bsl @ ''Chromium'' @ bsl @ ''Application'' @ bsl
       @ ''chrome.exe'']"

definition firefox_paths :: "string list" where
  "firefox_paths =
    [''/usr/bin/firefox'',
     ''/usr/local/bin/firefox'',
     ''/Applications/Firefox.app/Contents/MacOS/firefox'',
     ''C:'' @ bsl @ ''Program Files'' @ bsl @ ''Mozilla Firefox'' @ bsl @ ''firefox.exe'',
     ''C:'' @ bsl @ ''Program Files (x86)'' @ bsl @ ''Mozilla Firefox'' @ bsl
       @ ''firefox.exe'']"

text \<open>
  \<open>initBrowserPaths\<close>: the \<open>switch\<close> on the type has no default, so any other type leaves
  the list \<open>nil\<close>; a non-empty custom path is then put in front.
\<close>

definition initBrowserPaths :: "Browser \<Rightarrow> Browser" where
  "initBrowserPaths b =
    (let b1 =
       (if Type b = Chrome then b\<lparr>browsers := chrome_paths\<rparr>
        else if Type b = Chromium then b\<lparr>browsers := chromium_paths\<rparr>
        else if Type b = Firefox then b\<lparr>browsers := firefox_paths\<rparr>
        else b)
     in if Path b1 \<noteq> [] then b1\<lparr>browsers := [Path b1] @ browsers b1\<rparr> else b1)"

text \<open>
  \<open>NewBrowser\<close> returns the lines it prints to the console with the descriptor: the
  warning about an unsupported type is its only output.
\<close>

definition NewBrowser :: "string \<Rightarrow> string \<Rightarrow> string list \<times> Browser" where
  "NewBrowser browserType customPath =
    (let unsupported =
           (browserType \<noteq> Chrome \<and> browserType \<noteq> Chromium \<and> browserType \<noteq> Firefox);
         out = (if unsupported
                then [''Unsupported browser type: '' @ browserType
                        @ ''. Using Chrome as default.'']
                else []);
         bt = (if unsupported then Chrome else browserType)
     in (out, initBrowserPaths \<lparr>Type = bt, Path = customPath, browsers = []\<rparr>))"

text \<open>
  \<open>findBrowserPath\<close>. The file system is the parameter \<open>stat\<close>: \<open>stat p\<close> holds when
  \<open>os.Stat(p)\<close> returns no error. The loop over the candidates returns at the first one
  that exists.
\<close>

fun first_existing :: "(string \<Rightarrow> bool) \<Rightarrow> string list \<Rightarrow> error + string" where
  "first_existing stat [] = Inl ExecutableNotFound"
| "first_existing stat (path # paths) =
    (if stat path then Inr path else first_existing stat paths)"

definition findBrowserPath :: "(string \<Rightarrow> bool) \<Rightarrow> Browser \<Rightarrow> error + string" where
  "findBrowserPath stat b =
    (if Path b \<noteq> [] \<and> stat (Path b) then Inr (Path b)
     else first_existing stat (browsers b))"

section \<open>The world outside the program\<close>

text \<open>
  What the program reads from and does to its environment while it creates browser
  contexts and runs the pool:
  \<^item> \<open>stat_ok p\<close>: \<open>os.Stat(p)\<close> returns no error;
  \<^item> \<open>run_ok k\<close>: the \<open>k\<close>-th launch of a browser (\<open>chromedp.Run\<close> navigating to
    about:blank under the ten-second timeout), counted from 0, returns no error;
  \<^item> \<open>launches\<close>: the number of launches attempted so far. The context made by launch
    \<open>k\<close> is the handle \<open>k\<close>, and its cancel function is named \<open>k\<close> too, so every
    launch gives a fresh handle;
  \<^item> \<open>cancel_calls k\<close>: how often the cancel function \<open>timeoutCancel\<close> of handle \<open>k\<close>
    has been called;
  \<^item> \<open>pick\<close>, \<open>selects\<close>: Go's \<open>select\<close> takes one of its ready cases at random. When
    the channel case and the \<open>p.ctx.Done()\<close> case are both ready, the \<open>n\<close>-th such
    \<open>select\<close> takes the channel case when \<open>pick n\<close> holds; \<open>selects\<close> counts them.
\<close>

record world =
  stat_ok :: "string \<Rightarrow> bool"
  run_ok :: "nat \<Rightarrow> bool"
  launches :: nat
  cancel_calls :: "nat \<Rightarrow> nat"
  pick :: "nat \<Rightarrow> bool"
  selects :: nat

type_synonym handle = nat

text \<open>
  \<open>CreateContext\<close>. The path is looked up first; only then does the \<open>switch\<close> on the type
  run. For Chrome and Chromium one launch is attempted. The two \<open>defer\<close>red cancel calls
  run when the function returns: on success \<open>timeoutCancel\<close> has been called once when
  the caller receives the context, on a failed start twice (once explicitly). Console
  output (the installation help) is not modelled.
\<close>

definition CreateContext :: "Browser \<Rightarrow> world \<Rightarrow> (error + handle) \<times> world" where
  "CreateContext b w =
    (case findBrowserPath (stat_ok w) b of
       Inl err \<Rightarrow> (Inl (BrowserNotFound err), w)
     | Inr path \<Rightarrow>
         if Type b = Chrome \<or> Type b = Chromium then
           (let k = launches w in
            if run_ok w k
            then (Inr k, w\<lparr>launches := k + 1,
                           cancel_calls := (cancel_calls w)(k := cancel_calls w k + 1)\<rparr>)
            else (Inl BrowserStartFailed,
                  w\<lparr>launches := k + 1,
                    cancel_calls := (cancel_calls w)(k := cancel_calls w k + 2)\<rparr>))
         else if Type b = Firefox then (Inl FirefoxNotImplemented, w)
         else (Inl UnsupportedBrowserType, w))"

section \<open>Package browser: the pool\<close>

text \<open>
  The pool, as one goroutine sees it between calls:
  \<^item> \<open>pool\<close>: the content of the buffered channel, oldest first; its capacity is
    \<open>maxWorkers\<close>;
  \<^item> \<open>cancelFuncs\<close>: the cancel functions, by the name of their handle;
  \<^item> \<open>maxWorkers\<close>: a \<open>nat\<close>, since \<open>make\<close> panics on a negative capacity;
  \<^item> \<open>ctx_done\<close>: \<open>p.cancel\<close> has been called, so \<open>p.ctx.Done()\<close> is ready;
  \<^item> \<open>initErrCount\<close>: the count of failed attempts, which stays far from the bound of
    a Go \<open>int\<close>;
  \<^item> \<open>initialization\<close>: the counter of the wait group.

  The model is of one goroutine that calls the pool: a call runs to its end before the
  next one starts. The mutex is free between such calls and is not modelled.
\<close>

record BrowserPool =
  browser :: Browser
  pool :: "handle list"
  cancelFuncs :: "handle list"
  maxWorkers :: nat
  ctx_done :: bool
  initializing :: bool
  initialized :: bool
  initErrCount :: nat
  initialization :: nat

definition NewBrowserPool :: "Browser \<Rightarrow> nat \<Rightarrow> BrowserPool" where
  "NewBrowserPool b n =
    \<lparr>browser = b, pool = [], cancelFuncs = [], maxWorkers = n, ctx_done = False,
     initializing = False, initialized = False, initErrCount = 0, initialization = 0\<rparr>"

text \<open>
  The loop of \<open>Initialize\<close>, by the number of iterations left. The send \<open>p.pool <- browserCtx\<close>
  is not in a \<open>select\<close>: on a full channel it waits for a receiver, and in a sequential run
  there is none, so the call never returns. Not returning is the value \<open>None\<close>.
\<close>

fun Initialize_loop :: "nat \<Rightarrow> BrowserPool \<Rightarrow> world \<Rightarrow> (BrowserPool \<times> world) option" where
  "Initialize_loop 0 p w = Some (p, w)"
| "Initialize_loop (Suc n) p w =
    (case CreateContext (browser p) w of
       (Inl err, w') \<Rightarrow> Initialize_loop n (p\<lparr>initErrCount := initErrCount p + 1\<rparr>) w'
     | (Inr h, w') \<Rightarrow>
         if length (pool p) < maxWorkers p
         then Initialize_loop n (p\<lparr>cancelFuncs := cancelFuncs p @ [h], pool := pool p @ [h]\<rparr>) w'
         else None)"

text \<open>
  \<open>Initialize\<close> returns its error (\<open>None\<close> for \<open>nil\<close>), the pool and the world, or never
  returns.
\<close>

definition Initialize :: "BrowserPool \<Rightarrow> world \<Rightarrow> (error option \<times> BrowserPool \<times> world) option" where
  "Initialize p w =
    (if initializing p \<or> initialized p then Some (None, p, w)
     else
       (case Initialize_loop (maxWorkers p)
               (p\<lparr>initializing := True, initialization := initialization p + 1\<rparr>) w of
          None \<Rightarrow> None
        | Some (p1, w1) \<Rightarrow>
            (let p2 = p1\<lparr>initializing := False\<rparr> in
             if length (cancelFuncs p2) > 0
             then Some (None, p2\<lparr>initialized := True, initialization := initialization p2 - 1\<rparr>, w1)
             else Some (Some PoolInitFailed, p2\<lparr>initialization := initialization p2 - 1\<rparr>, w1))))"

text \<open>
  The \<open>select\<close> of \<open>GetContext\<close>: a handle from the channel, the closed pool, or the
  five-second timeout, which fires when neither of the others is ready (no other goroutine
  can make one ready meanwhile).
\<close>

definition select_receive :: "BrowserPool \<Rightarrow> world \<Rightarrow> (error + handle) \<times> BrowserPool \<times> world" where
  "select_receive p w =
    (case pool p of
       [] \<Rightarrow> (if ctx_done p then (Inl PoolClosed, p, w) else (Inl AcquireTimeout, p, w))
     | h # rest \<Rightarrow>
         if ctx_done p then
           (if pick w (selects w)
            then (Inr h, p\<lparr>pool := rest\<rparr>, w\<lparr>selects := selects w + 1\<rparr>)
            else (Inl PoolClosed, p, w\<lparr>selects := selects w + 1\<rparr>))
         else (Inr h, p\<lparr>pool := rest\<rparr>, w))"

text \<open>
  \<open>GetContext\<close>. \<open>p.initialization.Wait()\<close> returns at once when the counter is zero and
  never otherwise. The goroutine that cancels a one-time context once it is done is not
  modelled.
\<close>

definition GetContext :: "BrowserPool \<Rightarrow> world \<Rightarrow> ((error + handle) \<times> BrowserPool \<times> world) option" where
  "GetContext p w =
    (case (if \<not> initialized p \<and> \<not> initializing p then Initialize p w
           else Some (None, p, w)) of
       None \<Rightarrow> None
     | Some (Some err, p1, w1) \<Rightarrow> Some (Inl err, p1, w1)
     | Some (None, p1, w1) \<Rightarrow>
         if initializing p1 \<and> initialization p1 > 0 then None
         else if \<not> initialized p1 then
           (case CreateContext (browser p1) w1 of
              (Inl err, w2) \<Rightarrow> Some (Inl err, p1, w2)
            | (Inr ctx, w2) \<Rightarrow> Some (Inr ctx, p1, w2))
         else Some (select_receive p1 w1))"

text \<open>
  \<open>ReleaseContext\<close>: the send is in a \<open>select\<close>, so it never waits longer than a second.
\<close>

definition ReleaseContext :: "handle \<Rightarrow> BrowserPool \<Rightarrow> world \<Rightarrow> BrowserPool \<times> world" where
  "ReleaseContext ctx p w =
    (if \<not> initialized p then (p, w)
     else if length (pool p) < maxWorkers p then
       (if ctx_done p then
          (if pick w (selects w)
           then (p\<lparr>pool := pool p @ [ctx]\<rparr>, w\<lparr>selects := selects w + 1\<rparr>)
           else (p, w\<lparr>selects := selects w + 1\<rparr>))
        else (p\<lparr>pool := pool p @ [ctx]\<rparr>, w))
     else (p, w))"

text \<open>\<open>Close\<close>: the loop calls every stored cancel function, in order.\<close>

fun cancel_all :: "handle list \<Rightarrow> (nat \<Rightarrow> nat) \<Rightarrow> (nat \<Rightarrow> nat)" where
  "cancel_all [] calls = calls"
| "cancel_all (c # cs) calls = cancel_all cs (calls(c := calls c + 1))"

definition Close :: "BrowserPool \<Rightarrow> world \<Rightarrow> BrowserPool \<times> world" where
  "Close p w =
    (p\<lparr>ctx_done := True, cancelFuncs := [], initialized := False\<rparr>,
     w\<lparr>cancel_calls := cancel_all (cancelFuncs p) (cancel_calls w)\<rparr>)"

text \<open>
  A driver for sequential callers: \<open>n\<close> calls of \<open>GetContext\<close> one after the other, none
  released, with the result of each.
\<close>

fun acquire_n :: "nat \<Rightarrow> BrowserPool \<Rightarrow> world \<Rightarrow> ((error + handle) list \<times> BrowserPool \<times> world) option" where
  "acquire_n 0 p w = Some ([], p, w)"
| "acquire_n (Suc n) p w =
    (case GetContext p w of
       None \<Rightarrow> None
     | Some (r, p1, w1) \<Rightarrow>
         (case acquire_n n p1 w1 of
            None \<Rightarrow> None
          | Some (rs, p2, w2) \<Rightarrow> Some (r # rs, p2, w2)))"

section \<open>Strings, files and the line scanner\<close>
















section \<open>Package payloads: the list reader\<close>




section \<open>Package browser: the parser of custom requests\<close>








section \<open>Drivers and example inputs\<close>

text \<open>
  \<open>create_n n b w\<close>: what \<open>n\<close> calls of \<open>CreateContext\<close>, one after the other, return from
  the world \<open>w\<close> on, and the world they leave. \<open>handles_of\<close> keeps the contexts of the
  calls that succeeded, \<open>failures_of\<close> counts the calls that failed.
\<close>

fun create_n :: "nat \<Rightarrow> Browser \<Rightarrow> world \<Rightarrow> (error + handle) list \<times> world" where
  "create_n 0 b w = ([], w)"
| "create_n (Suc n) b w =
    (fst (CreateContext b w) # fst (create_n n b (snd (CreateContext b w))),
     snd (create_n n b (snd (CreateContext b w))))"

fun handles_of :: "(error + handle) list \<Rightarrow> handle list" where
  "handles_of [] = []"
| "handles_of (Inl err # rs) = handles_of rs"
| "handles_of (Inr h # rs) = h # handles_of rs"

fun failures_of :: "(error + handle) list \<Rightarrow> nat" where
  "failures_of [] = 0"
| "failures_of (Inl err # rs) = Suc (failures_of rs)"
| "failures_of (Inr h # rs) = failures_of rs"

text \<open>
  What a caller can see after a call that returned: the result, the buffer, the cancel
  functions, the flag \<open>initialized\<close> and the number of launches so far. The functions
  \<open>then_\<close>... run one more call after a call that returned.
\<close>

definition observe :: "('a \<times> BrowserPool \<times> world) option \<Rightarrow> ('a \<times> handle list \<times> handle list \<times> bool \<times> nat) option" where
  "observe x = map_option (\<lambda>(r, p, w). (r, pool p, cancelFuncs p, initialized p, launches w)) x"

definition then_Initialize :: "('a \<times> BrowserPool \<times> world) option \<Rightarrow> (error option \<times> BrowserPool \<times> world) option" where
  "then_Initialize x = Option.bind x (\<lambda>(r, p, w). Initialize p w)"

definition then_acquire_n :: "nat \<Rightarrow> ('a \<times> BrowserPool \<times> world) option \<Rightarrow> ((error + handle) list \<times> BrowserPool \<times> world) option" where
  "then_acquire_n n x = Option.bind x (\<lambda>(r, p, w). acquire_n n p w)"

definition then_Close :: "('a \<times> BrowserPool \<times> world) option \<Rightarrow> (unit \<times> BrowserPool \<times> world) option" where
  "then_Close x = map_option (\<lambda>(r, p, w). ((), Close p w)) x"

text \<open>Two descriptors, as \<open>NewBrowser\<close> builds them without a custom path.\<close>

definition chrome_browser :: Browser where
  "chrome_browser = snd (NewBrowser ''chrome'' [])"

definition firefox_browser :: Browser where
  "firefox_browser = snd (NewBrowser ''firefox'' [])"

text \<open>
  Four worlds, all before the first launch: one with no file at all; and three in which
  every path exists and every launch works, no launch works, or only the first two
  launches fail.
\<close>

definition empty_disk_world :: world where
  "empty_disk_world =
    \<lparr>stat_ok = (\<lambda>p. False), run_ok = (\<lambda>k. True), launches = 0,
     cancel_calls = (\<lambda>k. 0), pick = (\<lambda>n. True), selects = 0\<rparr>"

definition reliable_world :: world where
  "reliable_world =
    \<lparr>stat_ok = (\<lambda>p. True), run_ok = (\<lambda>k. True), launches = 0,
     cancel_calls = (\<lambda>k. 0), pick = (\<lambda>n. True), selects = 0\<rparr>"

definition failing_world :: world where
  "failing_world =
    \<lparr>stat_ok = (\<lambda>p. True), run_ok = (\<lambda>k. False), launches = 0,
     cancel_calls = (\<lambda>k. 0), pick = (\<lambda>n. True), selects = 0\<rparr>"

definition recovering_world :: world where
  "recovering_world =
    \<lparr>stat_ok = (\<lambda>p. True), run_ok = (\<lambda>k. 2 \<le> k), launches = 0,
     cancel_calls = (\<lambda>k. 0), pick = (\<lambda>n. True), selects = 0\<rparr>"

text \<open>A pool of capacity two that is initialized and holds both of its handles.\<close>

definition ready_pool :: BrowserPool where
  "ready_pool =
    (NewBrowserPool chrome_browser 2)\<lparr>pool := [0, 1], cancelFuncs := [0, 1], initialized := True\<rparr>"









section \<open>The descriptor and the locator\<close>

lemma type_consts_distinct:
  "Chrome \<noteq> Chromium" "Chrome \<noteq> Firefox" "Chromium \<noteq> Firefox"
  "Chromium \<noteq> Chrome" "Firefox \<noteq> Chrome" "Firefox \<noteq> Chromium"
  by (simp_all add: Chrome_def Chromium_def Firefox_def)

lemma first_existing_find:
  "first_existing stat ps =
     (case find stat ps of Some p \<Rightarrow> Inr p | None \<Rightarrow> Inl ExecutableNotFound)"
  by (induction ps) simp_all

lemmas browser_defs =
  NewBrowser_def initBrowserPaths_def Chrome_def Chromium_def Firefox_def
  chrome_paths_def firefox_paths_def findBrowserPath_def CreateContext_def Let_def

text \<open>
  Claim C10. For every browser type string other than "chrome", "chromium" and
  "firefox", \<open>NewBrowser\<close> returns a descriptor all the same: it prints the warning, takes
  Chrome as the type, keeps the custom path, and the candidate list is the list of
  Chrome, after the custom path when there is one.
\<close>

theorem NewBrowser_unsupported_type:
  assumes "browserType \<notin> {''chrome'', ''chromium'', ''firefox''}"
  shows "fst (NewBrowser browserType customPath) =
           [''Unsupported browser type: '' @ browserType @ ''. Using Chrome as default.'']
         \<and> Type (snd (NewBrowser browserType customPath)) = Chrome
         \<and> Path (snd (NewBrowser browserType customPath)) = customPath
         \<and> browsers (snd (NewBrowser browserType customPath)) =
             (if customPath \<noteq> [] then customPath # chrome_paths else chrome_paths)"
  using assms
  by (simp add: NewBrowser_def initBrowserPaths_def Let_def Chrome_def Chromium_def Firefox_def)

text \<open>The type "opera" with the custom path /opt/opera.\<close>

theorem NewBrowser_unsupported_type_witness:
  "''opera'' \<notin> {''chrome'', ''chromium'', ''firefox''}
   \<and> fst (NewBrowser ''opera'' ''/opt/opera'') =
       [''Unsupported browser type: opera. Using Chrome as default.'']
   \<and> Type (snd (NewBrowser ''opera'' ''/opt/opera'')) = Chrome
   \<and> browsers (snd (NewBrowser ''opera'' ''/opt/opera'')) = ''/opt/opera'' # chrome_paths"
  using NewBrowser_unsupported_type [of "''opera''" "''/opt/opera''"]
  by simp

text \<open>
  Claim C9. \<open>findBrowserPath\<close> returns the custom path when it is set and exists;
  otherwise the first candidate, in the order of the list, that exists; and the error
  "browser executable not found" when no candidate exists. \<open>NewBrowser\<close> builds the
  candidate list: the custom path first, when there is one, then the paths of the type.
\<close>

theorem findBrowserPath_first_existing:
  "findBrowserPath stat b =
     (if Path b \<noteq> [] \<and> stat (Path b) then Inr (Path b)
      else case find stat (browsers b) of
             Some p \<Rightarrow> Inr p
           | None \<Rightarrow> Inl ExecutableNotFound)
   \<and> browsers (snd (NewBrowser browserType customPath)) =
       (if customPath \<noteq> [] then [customPath] else [])
       @ (if browserType = Chromium then chromium_paths
          else if browserType = Firefox then firefox_paths
          else chrome_paths)"
  by (simp add: findBrowserPath_def first_existing_find NewBrowser_def initBrowserPaths_def
      Let_def type_consts_distinct)

section \<open>Creating a context\<close>

text \<open>
  Against claim C6 as it is worded: on a disk with no browser at all, a Firefox
  descriptor gets the error "browser not found", not the error about Firefox.
\<close>

theorem CreateContext_Firefox_counterexample:
  "fst (CreateContext firefox_browser empty_disk_world) = Inl (BrowserNotFound ExecutableNotFound)
   \<and> fst (CreateContext firefox_browser empty_disk_world) \<noteq> Inl FirefoxNotImplemented"
  by (simp add: browser_defs firefox_browser_def empty_disk_world_def)

text \<open>
  Claim C6, amended. For a descriptor of type Firefox, \<open>CreateContext\<close> always fails and
  attempts no launch (the world is left as it was): with the error about Firefox when
  \<open>findBrowserPath\<close> finds an executable, and with "browser not found" around the error
  of \<open>findBrowserPath\<close> when it finds none.
\<close>

theorem CreateContext_Firefox_fails:
  assumes "Type b = Firefox"
  shows "snd (CreateContext b w) = w
         \<and> fst (CreateContext b w) =
             (case findBrowserPath (stat_ok w) b of
                Inl err \<Rightarrow> Inl (BrowserNotFound err)
              | Inr path \<Rightarrow> Inl FirefoxNotImplemented)"
  using assms
  by (simp add: CreateContext_def type_consts_distinct split: sum.splits)

text \<open>The Firefox descriptor in a world where every path exists.\<close>

theorem CreateContext_Firefox_fails_witness:
  "Type firefox_browser = Firefox
   \<and> snd (CreateContext firefox_browser reliable_world) = reliable_world
   \<and> fst (CreateContext firefox_browser reliable_world) = Inl FirefoxNotImplemented"
  using CreateContext_Firefox_fails [of firefox_browser reliable_world]
  by (simp add: browser_defs firefox_browser_def reliable_world_def)

section \<open>The pool: initialization\<close>

lemmas pool_example_defs =
  browser_defs chrome_browser_def NewBrowserPool_def Initialize_def GetContext_def select_receive_def
  observe_def numeral_2_eq_2 numeral_3_eq_3

lemma handles_of_length: "length (handles_of rs) + failures_of rs = length rs"
  by (induction rs rule: handles_of.induct) simp_all

lemma create_n_length: "length (fst (create_n n b w)) = n"
  by (induction n arbitrary: w) simp_all

lemma CreateContext_launches:
  "CreateContext b w = (r, w') \<Longrightarrow> launches w \<le> launches w'"
  by (auto simp: CreateContext_def Let_def split: sum.splits if_splits)

lemma CreateContext_handle:
  "CreateContext b w = (Inr h, w') \<Longrightarrow> h = launches w \<and> launches w' = Suc h"
  by (auto simp: CreateContext_def Let_def split: sum.splits if_splits)

lemma create_n_launches: "launches w \<le> launches (snd (create_n n b w))"
proof (induction n arbitrary: w)
  case 0
  show ?case by simp
next
  case (Suc n)
  obtain r w1 where c: "CreateContext b w = (r, w1)" by (cases "CreateContext b w")
  have "launches w \<le> launches w1" using c by (rule CreateContext_launches)
  also have "launches w1 \<le> launches (snd (create_n n b w1))" by (rule Suc.IH)
  finally show ?case using c by simp
qed

text \<open>Every handle that a run of launches returns is the number of one of its launches.\<close>

lemma create_n_handles_bounds:
  "h \<in> set (handles_of (fst (create_n n b w))) \<Longrightarrow>
     launches w \<le> h \<and> h < launches (snd (create_n n b w))"
proof (induction n arbitrary: w)
  case 0
  then show ?case by simp
next
  case (Suc n)
  obtain r w1 where c: "CreateContext b w = (r, w1)" by (cases "CreateContext b w")
  obtain rs w2 where d: "create_n n b w1 = (rs, w2)" by (cases "create_n n b w1")
  have le1: "launches w \<le> launches w1" using c by (rule CreateContext_launches)
  have le2: "launches w1 \<le> launches w2" using create_n_launches [of w1 n b] d by simp
  show ?case
  proof (cases r)
    case (Inl e)
    with Suc.prems c d have "h \<in> set (handles_of (fst (create_n n b w1)))" by simp
    from Suc.IH [OF this] le1 c d show ?thesis by simp
  next
    case (Inr k)
    with c have k: "k = launches w" "launches w1 = Suc k"
      using CreateContext_handle by blast+
    from Suc.prems c d Inr have "h = k \<or> h \<in> set (handles_of (fst (create_n n b w1)))"
      by auto
    then show ?thesis
    proof
      assume "h = k"
      with k le2 c d show ?thesis by simp
    next
      assume "h \<in> set (handles_of (fst (create_n n b w1)))"
      from Suc.IH [OF this] k c d show ?thesis by simp
    qed
  qed
qed

lemma create_n_handles_distinct: "distinct (handles_of (fst (create_n n b w)))"
proof (induction n arbitrary: w)
  case 0
  show ?case by simp
next
  case (Suc n)
  obtain r w1 where c: "CreateContext b w = (r, w1)" by (cases "CreateContext b w")
  obtain rs w2 where d: "create_n n b w1 = (rs, w2)" by (cases "create_n n b w1")
  have ih: "distinct (handles_of rs)" using Suc.IH [of w1] d by simp
  show ?case
  proof (cases r)
    case (Inl e)
    with c d ih show ?thesis by simp
  next
    case (Inr k)
    with c have k: "k = launches w" "launches w1 = Suc k"
      using CreateContext_handle by blast+
    have "k \<notin> set (handles_of rs)"
    proof
      assume "k \<in> set (handles_of rs)"
      then have "k \<in> set (handles_of (fst (create_n n b w1)))" using d by simp
      from create_n_handles_bounds [OF this] k show False by simp
    qed
    with c d ih Inr show ?thesis by simp
  qed
qed

text \<open>
  The loop never waits on the channel when the buffer has room for all the iterations
  left, and then it stores exactly the contexts that were created.
\<close>

lemma Initialize_loop_create_n:
  assumes "length (pool p) + n \<le> maxWorkers p"
  shows "Initialize_loop n p w =
           Some (p\<lparr>pool := pool p @ handles_of (fst (create_n n (browser p) w)),
                   cancelFuncs := cancelFuncs p @ handles_of (fst (create_n n (browser p) w)),
                   initErrCount := initErrCount p + failures_of (fst (create_n n (browser p) w))\<rparr>,
                 snd (create_n n (browser p) w))"
  using assms
proof (induction n arbitrary: p w)
  case 0
  show ?case by simp
next
  case (Suc n)
  obtain r w1 where c: "CreateContext (browser p) w = (r, w1)"
    by (cases "CreateContext (browser p) w")
  obtain rs w2 where d: "create_n n (browser p) w1 = (rs, w2)"
    by (cases "create_n n (browser p) w1")
  show ?case
  proof (cases r)
    case (Inl e)
    let ?p = "p\<lparr>initErrCount := initErrCount p + 1\<rparr>"
    have "length (pool ?p) + n \<le> maxWorkers ?p" using Suc.prems by simp
    from Suc.IH [OF this, of w1] c d Inl show ?thesis by simp
  next
    case (Inr h)
    let ?p = "p\<lparr>cancelFuncs := cancelFuncs p @ [h], pool := pool p @ [h]\<rparr>"
    have room: "length (pool p) < maxWorkers p" using Suc.prems by simp
    have "length (pool ?p) + n \<le> maxWorkers ?p" using Suc.prems by simp
    from Suc.IH [OF this, of w1] c d Inr room show ?thesis by simp
  qed
qed

lemma Initialize_fresh:
  "Initialize (NewBrowserPool b n) w =
     Some (if handles_of (fst (create_n n b w)) = [] then Some PoolInitFailed else None,
           (NewBrowserPool b n)
             \<lparr>pool := handles_of (fst (create_n n b w)),
              cancelFuncs := handles_of (fst (create_n n b w)),
              initialized := (handles_of (fst (create_n n b w)) \<noteq> []),
              initErrCount := failures_of (fst (create_n n b w))\<rparr>,
           snd (create_n n b w))"
proof -
  let ?p = "(NewBrowserPool b n)
              \<lparr>initializing := True, initialization := initialization (NewBrowserPool b n) + 1\<rparr>"
  have "length (pool ?p) + n \<le> maxWorkers ?p" by (simp add: NewBrowserPool_def)
  from Initialize_loop_create_n [OF this, of w]
  show ?thesis by (simp add: Initialize_def NewBrowserPool_def)
qed

text \<open>
  A pool that is initialized and not closed hands out the handles of its buffer, oldest
  first, to as many calls of \<open>GetContext\<close> as it holds handles.
\<close>

lemma acquire_n_ready:
  assumes "initialized p" "\<not> initializing p" "\<not> ctx_done p"
  shows "acquire_n (length (pool p)) p w = Some (map Inr (pool p), p\<lparr>pool := []\<rparr>, w)"
  using assms
proof (induction "pool p" arbitrary: p)
  case Nil
  then show ?case by simp
next
  case (Cons h rest)
  let ?p = "p\<lparr>pool := rest\<rparr>"
  have g: "GetContext p w = Some (Inr h, ?p, w)"
    using Cons.prems Cons.hyps(2) [symmetric]
    by (simp add: GetContext_def select_receive_def)
  have "rest = pool ?p" "initialized ?p" "\<not> initializing ?p" "\<not> ctx_done ?p"
    using Cons.prems by simp_all
  from Cons.hyps(1) [OF this]
  have "acquire_n (length rest) ?p w = Some (map Inr rest, ?p\<lparr>pool := []\<rparr>, w)"
    by simp
  with g Cons.hyps(2) [symmetric] show ?case by simp
qed

text \<open>
  Against claim C1 as it is worded: a pool of capacity two whose first two launches
  fail. \<open>Initialize\<close> returns the error after two launches and leaves the pool not
  initialized; the next \<open>Initialize\<close> launches twice more and leaves it initialized with
  the handles 2 and 3.
\<close>

theorem Initialize_reruns_counterexample:
  "observe (Initialize (NewBrowserPool chrome_browser 2) recovering_world)
     = Some (Some PoolInitFailed, [], [], False, 2)
   \<and> observe (then_Initialize (Initialize (NewBrowserPool chrome_browser 2) recovering_world))
     = Some (None, [2, 3], [2, 3], True, 4)"
  by (simp add: pool_example_defs then_Initialize_def recovering_world_def)

text \<open>
  Claim C1, amended. While the pool is initialized (after an \<open>Initialize\<close> that created
  at least one context, and before any \<open>Close\<close>), every later \<open>Initialize\<close> returns no
  error and changes neither the pool nor the world, so it creates no context; and
  \<open>GetContext\<close> on such a pool that is not initializing returns without a launch and
  without a call of a cancel function, and leaves the pool initialized with the same
  cancel functions and the same count of failures.
\<close>

theorem Initialize_once_when_initialized:
  assumes "initialized p"
  shows "Initialize p w = Some (None, p, w)
         \<and> (\<not> initializing p \<longrightarrow>
              (\<exists>r p' w'. GetContext p w = Some (r, p', w')
                 \<and> launches w' = launches w \<and> cancel_calls w' = cancel_calls w
                 \<and> initialized p' \<and> \<not> initializing p'
                 \<and> cancelFuncs p' = cancelFuncs p \<and> initErrCount p' = initErrCount p))"
  using assms
  by (auto simp: Initialize_def GetContext_def select_receive_def split: list.splits)

text \<open>The initialized pool of capacity two, both handles in its buffer.\<close>

theorem Initialize_once_when_initialized_witness:
  "initialized ready_pool \<and> \<not> initializing ready_pool
   \<and> Initialize ready_pool reliable_world = Some (None, ready_pool, reliable_world)
   \<and> GetContext ready_pool reliable_world
       = Some (Inr 0, ready_pool\<lparr>pool := [1]\<rparr>, reliable_world)"
  using Initialize_once_when_initialized [of ready_pool reliable_world]
  by (simp add: ready_pool_def NewBrowserPool_def GetContext_def select_receive_def)

text \<open>
  On a pool that is neither initialized nor initializing, \<open>GetContext\<close> runs \<open>Initialize\<close>
  and then either returns its error or takes the \<open>select\<close> on the pool that is now
  initialized: the branch that creates a one-time context is not taken.
\<close>

lemma GetContext_not_initialized:
  assumes "\<not> initialized p" "\<not> initializing p"
  shows "GetContext p w =
           (case Initialize p w of
              None \<Rightarrow> None
            | Some (Some err, p1, w1) \<Rightarrow> Some (Inl err, p1, w1)
            | Some (None, p1, w1) \<Rightarrow> Some (select_receive p1 w1))"
proof (cases "Initialize p w")
  case None
  with assms show ?thesis by (simp add: GetContext_def)
next
  case (Some x)
  obtain r p1 w1 where x: "x = (r, p1, w1)" by (cases x)
  show ?thesis
  proof (cases r)
    case (Some err)
    with \<open>Initialize p w = Some x\<close> x assms show ?thesis by (simp add: GetContext_def)
  next
    case None
    with \<open>Initialize p w = Some x\<close> x assms
    have "initialized p1 \<and> \<not> initializing p1"
      by (auto simp: Initialize_def Let_def split: option.splits if_splits)
    with None \<open>Initialize p w = Some x\<close> x assms show ?thesis by (simp add: GetContext_def)
  qed
qed

text \<open>
  Claim C2, the code at the failing inputs. A pool of capacity two whose \<open>Initialize\<close>
  failed (two launches, no context, not initialized), then five calls of \<open>GetContext\<close>.
  When the launches work from the third on, the first call runs \<open>Initialize\<close> again and
  the pool becomes initialized with the handles 2 and 3, which the first two calls take
  from the buffer; the other three time out. When no launch ever works, each call runs
  \<open>Initialize\<close> again (twelve launches in all) and returns its error. No call reaches the
  one-time context.
\<close>

theorem GetContext_failed_pool_no_fallback:
  "observe (Initialize (NewBrowserPool chrome_browser 2) recovering_world)
     = Some (Some PoolInitFailed, [], [], False, 2)
   \<and> observe (then_acquire_n 5 (Initialize (NewBrowserPool chrome_browser 2) recovering_world))
     = Some ([Inr 2, Inr 3, Inl AcquireTimeout, Inl AcquireTimeout, Inl AcquireTimeout],
             [], [2, 3], True, 4)
   \<and> observe (Initialize (NewBrowserPool chrome_browser 2) failing_world)
     = Some (Some PoolInitFailed, [], [], False, 2)
   \<and> observe (then_acquire_n 5 (Initialize (NewBrowserPool chrome_browser 2) failing_world))
     = Some ([Inl PoolInitFailed, Inl PoolInitFailed, Inl PoolInitFailed, Inl PoolInitFailed,
              Inl PoolInitFailed], [], [], False, 12)"
  by (simp add: pool_example_defs then_acquire_n_def recovering_world_def failing_world_def
      eval_nat_numeral)

text \<open>
  Against claim C3 as it is worded: with no launch ever working, \<open>Initialize\<close> returns
  the same error after one attempt and after three attempts, so the error does not name
  the number of attempts.
\<close>

theorem Initialize_error_names_no_count_counterexample:
  "observe (Initialize (NewBrowserPool chrome_browser 1) failing_world)
     = Some (Some PoolInitFailed, [], [], False, 1)
   \<and> observe (Initialize (NewBrowserPool chrome_browser 3) failing_world)
     = Some (Some PoolInitFailed, [], [], False, 3)"
  by (simp add: pool_example_defs failing_world_def)

text \<open>
  Claim C3, amended. On a new pool of capacity \<open>n\<close>, \<open>Initialize\<close> always returns, after
  exactly the \<open>n\<close> calls of \<open>CreateContext\<close> (\<open>rs\<close> are their results). The buffer and the
  list of cancel functions hold exactly the contexts of the calls that succeeded, in
  order and all different, and the pool counts the failures. With at least one success
  there is no error and the pool is initialized; that many calls of \<open>GetContext\<close> then
  return these handles, each once, and the next call finds the buffer empty and times
  out. With no success the error is "failed to initialize any browser workers", which
  carries no count, and the pool is left not initialized with an empty buffer.
\<close>

theorem Initialize_fresh_pool:
  fixes b :: Browser and n :: nat and w :: world
  defines "rs \<equiv> fst (create_n n b w)"
  defines "w' \<equiv> snd (create_n n b w)"
  defines "p' \<equiv> (NewBrowserPool b n)
                   \<lparr>pool := handles_of rs, cancelFuncs := handles_of rs,
                    initialized := (handles_of rs \<noteq> []), initErrCount := failures_of rs\<rparr>"
  shows "Initialize (NewBrowserPool b n) w
           = Some (if handles_of rs = [] then Some PoolInitFailed else None, p', w')
         \<and> length rs = n
         \<and> length (handles_of rs) + failures_of rs = n
         \<and> distinct (handles_of rs)
         \<and> acquire_n (length (handles_of rs)) p' w'
             = Some (map Inr (handles_of rs), p'\<lparr>pool := []\<rparr>, w')
         \<and> (if handles_of rs = [] then \<not> initialized p' \<and> pool p' = []
              else GetContext (p'\<lparr>pool := []\<rparr>) w'
                     = Some (Inl AcquireTimeout, p'\<lparr>pool := []\<rparr>, w'))"
proof -
  have init: "Initialize (NewBrowserPool b n) w
           = Some (if handles_of rs = [] then Some PoolInitFailed else None, p', w')"
    unfolding rs_def w'_def p'_def by (rule Initialize_fresh)
  have len: "length rs = n" unfolding rs_def by (rule create_n_length)
  have cnt: "length (handles_of rs) + failures_of rs = n"
    using handles_of_length [of rs] len by simp
  have dist: "distinct (handles_of rs)" unfolding rs_def by (rule create_n_handles_distinct)
  have acq: "acquire_n (length (handles_of rs)) p' w'
             = Some (map Inr (handles_of rs), p'\<lparr>pool := []\<rparr>, w')"
  proof (cases "handles_of rs = []")
    case True
    then show ?thesis by (simp add: p'_def NewBrowserPool_def)
  next
    case False
    then have "initialized p'" "\<not> initializing p'" "\<not> ctx_done p'"
      by (simp_all add: p'_def NewBrowserPool_def)
    from acquire_n_ready [OF this, of w'] show ?thesis by (simp add: p'_def)
  qed
  have last: "if handles_of rs = [] then \<not> initialized p' \<and> pool p' = []
              else GetContext (p'\<lparr>pool := []\<rparr>) w'
                     = Some (Inl AcquireTimeout, p'\<lparr>pool := []\<rparr>, w')"
    by (simp add: p'_def NewBrowserPool_def GetContext_def select_receive_def)
  from init len cnt dist acq last show ?thesis by blast
qed

text \<open>
  A pool of capacity three where every launch works: three handles, handed out once
  each, and a fourth call that times out.
\<close>

theorem Initialize_fresh_pool_witness:
  "Initialize (NewBrowserPool chrome_browser 3) reliable_world
     = Some (None,
             (NewBrowserPool chrome_browser 3)
               \<lparr>pool := [0, 1, 2], cancelFuncs := [0, 1, 2], initialized := True,
                initErrCount := 0\<rparr>,
             snd (create_n 3 chrome_browser reliable_world))
   \<and> observe (then_acquire_n 4 (Initialize (NewBrowserPool chrome_browser 3) reliable_world))
       = Some ([Inr 0, Inr 1, Inr 2, Inl AcquireTimeout], [], [0, 1, 2], True, 3)"
proof -
  have rs: "fst (create_n 3 chrome_browser reliable_world) = [Inr 0, Inr 1, Inr 2]"
    by (simp add: pool_example_defs reliable_world_def)
  have obs: "observe (then_acquire_n 4 (Initialize (NewBrowserPool chrome_browser 3) reliable_world))
       = Some ([Inr 0, Inr 1, Inr 2, Inl AcquireTimeout], [], [0, 1, 2], True, 3)"
    by (simp add: pool_example_defs then_acquire_n_def reliable_world_def eval_nat_numeral)
  from Initialize_fresh_pool [of chrome_browser 3 reliable_world] rs obs
  show ?thesis by simp
qed

section \<open>The pool: acquire, release and close\<close>

text \<open>
  Claim C4. On a pool that is initialized, not initializing and not closed, a handle
  that \<open>GetContext\<close> returned and that is given to \<open>ReleaseContext\<close> while the buffer has
  room goes back into the buffer, at its end; the buffer is then as long as before the
  two calls; and the next \<open>GetContext\<close> returns a handle of the buffer.
\<close>

theorem Acquire_Release_round_trip:
  assumes "initialized p" and "\<not> initializing p" and "\<not> ctx_done p"
    and "GetContext p w = Some (Inr h, p1, w1)"
    and "length (pool p1) < maxWorkers p1"
  shows "ReleaseContext h p1 w1 = (p1\<lparr>pool := pool p1 @ [h]\<rparr>, w1)
         \<and> length (pool p1 @ [h]) = length (pool p)
         \<and> h \<in> set (pool (fst (ReleaseContext h p1 w1)))
         \<and> (\<exists>h' p3. GetContext (fst (ReleaseContext h p1 w1)) (snd (ReleaseContext h p1 w1))
                        = Some (Inr h', p3, w1)
                 \<and> h' \<in> set (pool p1 @ [h]) \<and> initialized p3)"
proof -
  from assms(1,2,4) have sel: "select_receive p w = (Inr h, p1, w1)"
    by (simp add: GetContext_def)
  with assms(3) obtain rest where p: "pool p = h # rest" "p1 = p\<lparr>pool := rest\<rparr>" "w1 = w"
    by (auto simp: select_receive_def split: list.splits)
  have flags: "initialized p1" "\<not> initializing p1" "\<not> ctx_done p1"
    using assms(1-3) p by simp_all
  have rel: "ReleaseContext h p1 w1 = (p1\<lparr>pool := pool p1 @ [h]\<rparr>, w1)"
    using flags assms(5) by (simp add: ReleaseContext_def)
  have len: "length (pool p1 @ [h]) = length (pool p)" using p by simp
  have again: "\<exists>h' p3. GetContext (p1\<lparr>pool := pool p1 @ [h]\<rparr>) w1 = Some (Inr h', p3, w1)
                 \<and> h' \<in> set (pool p1 @ [h]) \<and> initialized p3"
    using flags by (cases "pool p1") (simp_all add: GetContext_def select_receive_def)
  from rel len again show ?thesis by simp
qed

text \<open>
  The initialized pool of capacity two: handle 0 is taken, given back behind handle 1,
  and the next call takes handle 1.
\<close>

theorem Acquire_Release_round_trip_witness:
  "initialized ready_pool \<and> \<not> initializing ready_pool \<and> \<not> ctx_done ready_pool
   \<and> GetContext ready_pool reliable_world = Some (Inr 0, ready_pool\<lparr>pool := [1]\<rparr>, reliable_world)
   \<and> length (pool (ready_pool\<lparr>pool := [1]\<rparr>)) < maxWorkers (ready_pool\<lparr>pool := [1]\<rparr>)
   \<and> ReleaseContext 0 (ready_pool\<lparr>pool := [1]\<rparr>) reliable_world
       = (ready_pool\<lparr>pool := [1, 0]\<rparr>, reliable_world)
   \<and> GetContext (ready_pool\<lparr>pool := [1, 0]\<rparr>) reliable_world
       = Some (Inr 1, ready_pool\<lparr>pool := [0]\<rparr>, reliable_world)"
proof -
  have a: "initialized ready_pool" "\<not> initializing ready_pool" "\<not> ctx_done ready_pool"
    by (simp_all add: ready_pool_def NewBrowserPool_def)
  have g: "GetContext ready_pool reliable_world
             = Some (Inr 0, ready_pool\<lparr>pool := [1]\<rparr>, reliable_world)"
    by (simp add: ready_pool_def NewBrowserPool_def GetContext_def select_receive_def)
  have r: "length (pool (ready_pool\<lparr>pool := [1]\<rparr>)) < maxWorkers (ready_pool\<lparr>pool := [1]\<rparr>)"
    by (simp add: ready_pool_def NewBrowserPool_def)
  have g2: "GetContext (ready_pool\<lparr>pool := [1, 0]\<rparr>) reliable_world
       = Some (Inr 1, ready_pool\<lparr>pool := [0]\<rparr>, reliable_world)"
    by (simp add: ready_pool_def NewBrowserPool_def GetContext_def select_receive_def)
  from Acquire_Release_round_trip [OF a g r] a g r g2 show ?thesis by simp
qed

lemma cancel_all_count: "cancel_all cs calls c = calls c + count_list cs c"
  by (induction cs arbitrary: calls) simp_all

lemma count_list_distinct:
  "distinct cs \<Longrightarrow> count_list cs c = (if c \<in> set cs then 1 else 0)"
  by (induction cs) auto

text \<open>
  Against claim C5 as it is worded: after \<open>Initialize\<close> has put the handles 0 and 1 into
  the buffer, \<open>Close\<close> leaves them there.
\<close>

theorem Close_keeps_buffer_counterexample:
  "observe (then_Close (Initialize (NewBrowserPool chrome_browser 2) reliable_world))
     = Some ((), [0, 1], [], False, 2)"
  by (simp add: pool_example_defs then_Close_def Close_def reliable_world_def)

text \<open>
  Claim C5, amended. \<open>Close\<close> cancels the context of the pool, calls every stored cancel
  function once for each time it is stored (exactly once when the stored functions are
  all different, and no other cancel function at all), empties the list of cancel
  functions and marks the pool not initialized. It does not touch the buffer, which
  keeps its handles. A second \<open>Close\<close> changes nothing: neither the pool nor the number
  of calls of any cancel function.
\<close>

theorem Close_effects:
  "ctx_done (fst (Close p w))
   \<and> cancelFuncs (fst (Close p w)) = []
   \<and> \<not> initialized (fst (Close p w))
   \<and> pool (fst (Close p w)) = pool p
   \<and> (\<forall>c. cancel_calls (snd (Close p w)) c = cancel_calls w c + count_list (cancelFuncs p) c)
   \<and> (distinct (cancelFuncs p) \<longrightarrow>
        (\<forall>c. cancel_calls (snd (Close p w)) c
               = (if c \<in> set (cancelFuncs p) then cancel_calls w c + 1 else cancel_calls w c)))
   \<and> Close (fst (Close p w)) (snd (Close p w)) = Close p w"
  by (simp add: Close_def cancel_all_count count_list_distinct)

text \<open>
  The initialized pool of capacity two: the cancel functions 0 and 1 are called once,
  no other is called, and a second \<open>Close\<close> calls none again.
\<close>

theorem Close_effects_witness:
  "distinct (cancelFuncs ready_pool)
   \<and> pool (fst (Close ready_pool reliable_world)) = [0, 1]
   \<and> cancelFuncs (fst (Close ready_pool reliable_world)) = []
   \<and> cancel_calls (snd (Close ready_pool reliable_world)) 0 = 1
   \<and> cancel_calls (snd (Close ready_pool reliable_world)) 1 = 1
   \<and> cancel_calls (snd (Close ready_pool reliable_world)) 2 = 0
   \<and> cancel_calls (snd (Close (fst (Close ready_pool reliable_world))
                               (snd (Close ready_pool reliable_world)))) 0 = 1"
  using Close_effects [of ready_pool reliable_world]
  by (simp add: ready_pool_def NewBrowserPool_def reliable_world_def)

section \<open>The list reader\<close>











section \<open>The parser of custom requests\<close>














end
